theory Spec2Isabelle
  imports Complex_Main "HOL-Library.Sublist" "HOL-Library.Multiset"
begin

section \<open>Data model\<close>

text \<open>
  The dashboard script \<^verbatim>\<open>streamlit_app.py\<close> works on a pandas data frame with the
  columns \<^verbatim>\<open>year\<close>, \<^verbatim>\<open>total_co2_emissions\<close> and \<^verbatim>\<open>pct_unable_to_afford_diet\<close>.
  A row of the frame is a record; the frame is the list of its rows in index order.
  The year column holds integers. The two metric columns hold floats: a finite float is
  modelled by the real number it denotes, so rounding, overflow and the sign of zero are
  not part of the model, and missing cells (SQL NULL) are outside it.
\<close>

record indicator =
  year :: int
  total_co2_emissions :: real
  pct_unable_to_afford_diet :: real

type_synonym dataframe = "indicator list"

text \<open>The exceptions the script can raise.\<close>

datatype py_error = ValueError | TypeError | LinAlgError | OperationalError | DatabaseError
  | StreamlitAPIException

section \<open>Loading\<close>

text \<open>
  Lines 28 to 33:
  \<^verbatim>\<open>conn = sqlite3.connect('data/database/south_africa_analysis.db')\<close>,
  \<^verbatim>\<open>df = pd.read_sql_query("SELECT * FROM environmental_social_data ORDER BY year", conn)\<close>.

  A table has its column names and its rows; a row gives the cell of each column name
  (only the names of the table's columns matter). The file at the path is either not a
  database, or a database: the list of its tables with their names. The source is
  \<open>None\<close> when sqlite cannot open or create the file; a file that does not exist yet
  in an existing directory is created as a database without tables.

  \<^verbatim>\<open>connect\<close> raises \<^verbatim>\<open>OperationalError\<close> when the file cannot be opened; it does not
  read the file. The query fails with pandas' \<^verbatim>\<open>DatabaseError\<close> when the file is not a
  database, when no table has the name, or when the table has no column \<^verbatim>\<open>year\<close>.
  SQLite compares the names of tables and columns without regard to the case of ASCII
  letters. \<^verbatim>\<open>SELECT *\<close> returns whatever columns the table has, and the rows ordered by
  the year column (the model orders rows of equal year as a stable sort does; SQL leaves
  their order open). The script has no other check of what it loads.
\<close>

record sql_table =
  columns :: "string list"
  table_rows :: "(string \<Rightarrow> real) list"

datatype db_file = NotADatabase | Database "(string \<times> sql_table) list"

definition ascii_lower :: "char \<Rightarrow> char" where
  "ascii_lower c =
     (case map_of (zip ''ABCDEFGHIJKLMNOPQRSTUVWXYZ'' ''abcdefghijklmnopqrstuvwxyz'') c of
        None \<Rightarrow> c
      | Some d \<Rightarrow> d)"

definition same_name :: "string \<Rightarrow> string \<Rightarrow> bool" where
  "same_name a b = (map ascii_lower a = map ascii_lower b)"

definition sqlite3_connect :: "db_file option \<Rightarrow> py_error + db_file" where
  "sqlite3_connect src = (case src of None \<Rightarrow> Inl OperationalError | Some f \<Rightarrow> Inr f)"

definition read_sql_query :: "db_file \<Rightarrow> py_error + sql_table" where
  "read_sql_query conn =
     (case conn of
        NotADatabase \<Rightarrow> Inl DatabaseError
      | Database tables \<Rightarrow>
          (case find (\<lambda>(name, t). same_name name ''environmental_social_data'') tables of
             None \<Rightarrow> Inl DatabaseError
           | Some (name, t) \<Rightarrow>
               (case find (\<lambda>c. same_name c ''year'') (columns t) of
                  None \<Rightarrow> Inl DatabaseError
                | Some c \<Rightarrow> Inr (t\<lparr>table_rows := sort_key (\<lambda>r. r c) (table_rows t)\<rparr>))))"

definition load_data :: "db_file option \<Rightarrow> py_error + sql_table" where
  "load_data src =
     (case sqlite3_connect src of
        Inl e \<Rightarrow> Inl e
      | Inr conn \<Rightarrow> read_sql_query conn)"



text \<open>
  The rest of the script reads the three columns of the loaded frame. A frame whose
  table holds exactly these columns, with integer years, is written as a list of
  indicator rows; \<open>table_of\<close> gives the table of such a list.
\<close>

definition row_of :: "indicator \<Rightarrow> string \<Rightarrow> real" where
  "row_of r c =
     (if c = ''year'' then real_of_int (year r)
      else if c = ''total_co2_emissions'' then total_co2_emissions r
      else pct_unable_to_afford_diet r)"

definition table_of :: "dataframe \<Rightarrow> sql_table" where
  "table_of df =
     \<lparr>columns = [''year'', ''total_co2_emissions'', ''pct_unable_to_afford_diet''],
      table_rows = map row_of df\<rparr>"

section \<open>Year range selection and filtering\<close>

text \<open>
  \<^verbatim>\<open>df['year'] >= v\<close> and \<^verbatim>\<open>df['year'] <= v\<close> compare a column with a scalar, element by
  element, and give a boolean column; \<^verbatim>\<open>&\<close> combines two boolean columns element by
  element; \<^verbatim>\<open>df[mask]\<close> keeps the rows whose mask entry is true, in index order.
\<close>

definition series_ge :: "int list \<Rightarrow> int \<Rightarrow> bool list" where
  "series_ge s v = map (\<lambda>y. v \<le> y) s"

definition series_le :: "int list \<Rightarrow> int \<Rightarrow> bool list" where
  "series_le s v = map (\<lambda>y. y \<le> v) s"

definition series_and :: "bool list \<Rightarrow> bool list \<Rightarrow> bool list" where
  "series_and a b = map (\<lambda>(p, q). p \<and> q) (zip a b)"

definition getitem_mask :: "'a list \<Rightarrow> bool list \<Rightarrow> 'a list" where
  "getitem_mask rs bs = map fst (filter snd (zip rs bs))"

text \<open>
  Line 51:
  \<^verbatim>\<open>filtered_df = df[(df['year'] >= year_range[0]) & (df['year'] <= year_range[1])]\<close>
\<close>

definition filtered_df :: "dataframe \<Rightarrow> int \<times> int \<Rightarrow> dataframe" where
  "filtered_df df year_range =
     getitem_mask df
       (series_and (series_ge (map year df) (fst year_range))
                   (series_le (map year df) (snd year_range)))"

text \<open>
  Lines 43 to 48: the bounds and the initial value of the slider are
  \<^verbatim>\<open>int(df['year'].min())\<close> and \<^verbatim>\<open>int(df['year'].max())\<close>. On a frame without rows the
  minimum of the column is NaN and \<^verbatim>\<open>int\<close> raises \<^verbatim>\<open>ValueError\<close>.
\<close>

fun series_min :: "int list \<Rightarrow> int option" where
  "series_min [] = None"
| "series_min (y # ys) = Some (fold min ys y)"

fun series_max :: "int list \<Rightarrow> int option" where
  "series_max [] = None"
| "series_max (y # ys) = Some (fold max ys y)"

text \<open>
  \<^verbatim>\<open>st.sidebar.slider\<close> checks its arguments before it returns: it raises
  \<^verbatim>\<open>StreamlitAPIException\<close> when \<^verbatim>\<open>min_value\<close> equals \<^verbatim>\<open>max_value\<close>, and when a
  bound is not an integer that JavaScript represents exactly (absolute value at most
  \<open>2\<^sup>5\<^sup>3 - 1\<close>). Otherwise the first run of the script gets the initial value, which
  here is the pair of the bounds.
\<close>

definition js_safe_integer :: "int \<Rightarrow> bool" where
  "js_safe_integer v = (- (2 ^ 53 - 1) \<le> v \<and> v \<le> 2 ^ 53 - 1)"

definition slider :: "int \<Rightarrow> int \<Rightarrow> py_error + (int \<times> int)" where
  "slider min_value max_value =
     (if min_value = max_value then Inl StreamlitAPIException
      else if js_safe_integer min_value \<and> js_safe_integer max_value
      then Inr (min_value, max_value)
      else Inl StreamlitAPIException)"

definition year_range_default :: "dataframe \<Rightarrow> py_error + (int \<times> int)" where
  "year_range_default df =
     (case series_min (map year df) of
        None \<Rightarrow> Inl ValueError
      | Some lo \<Rightarrow>
          (case series_max (map year df) of
             None \<Rightarrow> Inl ValueError
           | Some hi \<Rightarrow> slider lo hi))"

text \<open>
  The seven rows of the end-to-end example, with the values the specification gives.
\<close>

definition example_dataset :: dataframe where
  "example_dataset =
     [\<lparr>year = 2017, total_co2_emissions = 440.0, pct_unable_to_afford_diet = 60.8\<rparr>,
      \<lparr>year = 2018, total_co2_emissions = 434.6, pct_unable_to_afford_diet = 60.2\<rparr>,
      \<lparr>year = 2019, total_co2_emissions = 464.1, pct_unable_to_afford_diet = 60.2\<rparr>,
      \<lparr>year = 2020, total_co2_emissions = 434.1, pct_unable_to_afford_diet = 61.8\<rparr>,
      \<lparr>year = 2021, total_co2_emissions = 425.9, pct_unable_to_afford_diet = 61.1\<rparr>,
      \<lparr>year = 2022, total_co2_emissions = 405.3, pct_unable_to_afford_diet = 61.0\<rparr>,
      \<lparr>year = 2023, total_co2_emissions = 401.9, pct_unable_to_afford_diet = 61.7\<rparr>]"

section \<open>Floating-point results\<close>

text \<open>
  The statistics are floats and may be NaN or infinite. A result is a finite real, one
  of the two infinities, or NaN. Arithmetic on finite values is exact in the model.
\<close>

datatype pyfloat = Finite real | PosInf | NegInf | NaN

text \<open>
  Division of two finite floats: a zero divisor (taken as positive zero) gives an
  infinity with the sign of the dividend or, for 0/0, NaN.
\<close>

definition float_div :: "real \<Rightarrow> real \<Rightarrow> pyfloat" where
  "float_div a b =
     (if b \<noteq> 0 then Finite (a / b)
      else if 0 < a then PosInf
      else if a < 0 then NegInf
      else NaN)"

fun float_add :: "pyfloat \<Rightarrow> pyfloat \<Rightarrow> pyfloat" where
  "float_add NaN _ = NaN"
| "float_add _ NaN = NaN"
| "float_add PosInf NegInf = NaN"
| "float_add NegInf PosInf = NaN"
| "float_add PosInf _ = PosInf"
| "float_add _ PosInf = PosInf"
| "float_add NegInf _ = NegInf"
| "float_add _ NegInf = NegInf"
| "float_add (Finite a) (Finite b) = Finite (a + b)"

text \<open>Division of a float by a positive count.\<close>

fun float_div_count :: "pyfloat \<Rightarrow> nat \<Rightarrow> pyfloat" where
  "float_div_count (Finite a) n = Finite (a / real n)"
| "float_div_count v n = v"

section \<open>Descriptive statistics\<close>

text \<open>
  \<^verbatim>\<open>Series.mean()\<close> skips NaN entries: it is the sum of the other entries divided by
  their number, and NaN when there is none (in particular on an empty column).
\<close>

definition series_mean :: "pyfloat list \<Rightarrow> pyfloat" where
  "series_mean s =
     (let vs = filter (\<lambda>v. v \<noteq> NaN) s
      in if vs = [] then NaN
         else float_div_count (foldl float_add (Finite 0) vs) (length vs))"

text \<open>
  \<^verbatim>\<open>Series.pct_change()\<close> is \<^verbatim>\<open>x / x.shift(1) - 1\<close>: the first entry is NaN, entry
  \<open>i\<close> is \<open>x[i] / x[i-1] - 1\<close>.
\<close>

definition float_sub1 :: "pyfloat \<Rightarrow> pyfloat" where
  "float_sub1 v = float_add v (Finite (- 1))"

fun pct_change :: "real list \<Rightarrow> pyfloat list" where
  "pct_change [] = []"
| "pct_change (x # xs) =
     NaN # map (\<lambda>(prev, cur). float_sub1 (float_div cur prev)) (zip (x # xs) xs)"

text \<open>
  The formula of the specification for the mean percentage change, in the same
  arithmetic: the arithmetic mean of the quotients \<open>(x[i] - x[i-1]) / x[i-1]\<close> for
  \<open>i = 1..n-1\<close>, and NaN for \<open>n < 2\<close>. It is compared with the script's
  \<^verbatim>\<open>pct_change().mean()\<close> below.
\<close>

definition spec_pct_change_mean :: "real list \<Rightarrow> pyfloat" where
  "spec_pct_change_mean x =
     (if length x < 2 then NaN
      else float_div_count
             (foldl float_add (Finite 0)
                (map (\<lambda>i. float_div (x ! i - x ! (i - 1)) (x ! (i - 1))) [1..<length x]))
             (length x - 1))"

text \<open>
  \<^verbatim>\<open>a.corr(b)\<close> (Pearson, line 78): NaN on an empty column; otherwise
  \<^verbatim>\<open>numpy.corrcoef(a, b)[0, 1]\<close>, the covariance (normalised by \<open>n - 1\<close>) divided by
  the standard deviation of \<open>a\<close> and then by that of \<open>b\<close>, and clipped to \<open>[-1, 1]\<close>.
  With one row the normalisation is a division of zero by zero; with a constant column
  a zero covariance is divided by a zero deviation: both give NaN.

  The value is the one of exact arithmetic. The double that the code returns is its
  rounding: it can depend in the last bit on the order of the two divisions, and on a
  constant column whose mean is not exact in doubles the deviations are not zero and the
  code returns a finite value where the quotient of exact arithmetic is undefined.
\<close>

definition mean_of :: "real list \<Rightarrow> real" where
  "mean_of xs = sum_list xs / real (length xs)"

definition deviations :: "real list \<Rightarrow> real list" where
  "deviations xs = map (\<lambda>x. x - mean_of xs) xs"

definition dot :: "real list \<Rightarrow> real list \<Rightarrow> real" where
  "dot a b = sum_list (map (\<lambda>(u, v). u * v) (zip a b))"

definition cov :: "real list \<Rightarrow> real list \<Rightarrow> real" where
  "cov a b = dot (deviations a) (deviations b) / (real (length a) - 1)"

definition clip :: "real \<Rightarrow> real \<Rightarrow> real \<Rightarrow> real" where
  "clip lo hi v = min hi (max lo v)"

definition corr :: "real list \<Rightarrow> real list \<Rightarrow> pyfloat" where
  "corr a b =
     (if length a = 0 then NaN
      else if length a = 1 then NaN
      else if cov a a = 0 \<or> cov b b = 0 then NaN
      else Finite (clip (- 1) 1 (cov a b / sqrt (cov a a) / sqrt (cov b b))))"

text \<open>
  Lines 79 to 83: the delta of the correlation metric is
  \<^verbatim>\<open>"Negative" if correlation < 0 else "Positive"\<close>; a comparison with NaN is false.
\<close>

definition float_less_zero :: "pyfloat \<Rightarrow> bool" where
  "float_less_zero v = (case v of Finite r \<Rightarrow> r < 0 | NegInf \<Rightarrow> True | _ \<Rightarrow> False)"

definition correlation_delta :: "pyfloat \<Rightarrow> string" where
  "correlation_delta correlation =
     (if float_less_zero correlation then ''Negative'' else ''Positive'')"

section \<open>Trend line\<close>

text \<open>
  Line 132: \<^verbatim>\<open>z = np.polyfit(x, y, 1)\<close> for two columns of the same frame.
  \<^verbatim>\<open>polyfit\<close> raises \<^verbatim>\<open>TypeError\<close> on an empty \<open>x\<close> and on columns of different
  lengths. Otherwise it forms the matrix with the columns \<open>x\<close> and \<open>1\<close>, divides each
  column by its Euclidean norm, and calls \<^verbatim>\<open>lstsq\<close> with the cut-off ratio
  \<^verbatim>\<open>rcond = len(x) * eps\<close>, where \<open>eps = 2\<^sup>-\<^sup>5\<^sup>2\<close>; the coefficients
  are then divided by the norms again.

  The two columns of the scaled matrix have norm 1 and inner product
  \<open>\<rho> = sum x / sqrt (n * sum x\<^sup>2)\<close>, so its singular values are \<open>sqrt (1 + \<bar>\<rho>\<bar>)\<close> and
  \<open>sqrt (1 - \<bar>\<rho>\<bar>)\<close>. \<^verbatim>\<open>lstsq\<close> treats a singular value as zero when it is at most
  \<open>rcond\<close> times the largest one. Both count, and the matrix has full rank for
  \<^verbatim>\<open>lstsq\<close>, exactly when \<open>1 - \<bar>\<rho>\<bar> > rcond\<^sup>2 (1 + \<bar>\<rho>\<bar>)\<close>, which is the condition
  \<open>full_rank\<close> below written without the square roots. Then the solution is the one of
  the normal equations. Otherwise \<open>x\<close> is constant, exactly or up to the cut-off: numpy
  warns and returns the solution of least norm, built from the largest singular value
  alone, whose right singular vector is \<open>(1, sgn \<rho>) / sqrt 2\<close>. For a constant
  \<open>x = c\<close> this is slope \<open>mean y / (2 c)\<close> and intercept \<open>mean y / 2\<close>.

  Two cases are left to the linear-algebra backend and are the parameter
  \<open>nan_outcome\<close> of the model: a column \<open>x\<close> of zeros, where a norm is zero and the
  scaled matrix holds NaN, and a column of \<open>2\<^sup>5\<^sup>2\<close> or more values, where the cut-off
  ratio is not below 1.
\<close>

type_synonym coefficients = "pyfloat \<times> pyfloat"

definition is_constant :: "real list \<Rightarrow> bool" where
  "is_constant xs = list_all (\<lambda>v. v = hd xs) xs"

definition rcond :: "real list \<Rightarrow> real" where
  "rcond x = real (length x) / 2 ^ 52"

definition full_rank :: "real list \<Rightarrow> bool" where
  "full_rank x =
     (rcond x < 1 \<and>
      sum_list x * sum_list x * ((1 + rcond x * rcond x) * (1 + rcond x * rcond x))
        < real (length x) * dot x x * ((1 - rcond x * rcond x) * (1 - rcond x * rcond x)))"

definition polyfit1 ::
  "(py_error + coefficients) \<Rightarrow> real list \<Rightarrow> real list \<Rightarrow> py_error + coefficients" where
  "polyfit1 nan_outcome x y =
     (if x = [] then Inl TypeError
      else if length x \<noteq> length y then Inl TypeError
      else if dot x x = 0 \<or> 1 \<le> rcond x then nan_outcome
      else
        (let n = real (length x);
             sx = sum_list x; sy = sum_list y;
             sxx = dot x x; sxy = dot x y
         in if full_rank x then
              (let det = n * sxx - sx * sx
               in Inr (Finite ((n * sxy - sx * sy) / det),
                       Finite ((sxx * sy - sx * sxy) / det)))
            else
              (let norm_x = sqrt sxx; norm_1 = sqrt n;
                   g = (sxy * norm_1 + sgn sx * sy * norm_x)
                         / (2 * (norm_x * norm_1 + \<bar>sx\<bar>))
               in Inr (Finite (g / norm_x), Finite (sgn sx * g / norm_1)))))"

text \<open>
  The quantity \<^verbatim>\<open>polyfit\<close> minimises: the sum of the squared residuals of the line
  with slope \<open>m\<close> and intercept \<open>c\<close>.
\<close>

definition sse :: "real list \<Rightarrow> real list \<Rightarrow> real \<Rightarrow> real \<Rightarrow> real" where
  "sse x y m c = sum_list (map (\<lambda>(u, v). (v - (m * u + c)) * (v - (m * u + c))) (zip x y))"

section \<open>The analysis of a filtered view\<close>

text \<open>
  Lines 60 to 136 compute, in this order, the two means and the two mean percentage
  changes, the correlation, the number of rows and the trend line. An exception of
  \<^verbatim>\<open>polyfit\<close> ends the script run.
\<close>

record analysis =
  mean_co2 :: pyfloat
  co2_pct_change_mean :: pyfloat
  mean_diet :: pyfloat
  diet_pct_change_mean :: pyfloat
  correlation :: pyfloat
  data_points :: nat
  trend_line :: coefficients

definition analyze :: "(py_error + coefficients) \<Rightarrow> dataframe \<Rightarrow> py_error + analysis" where
  "analyze nan_outcome view =
     (let co2 = map total_co2_emissions view;
          diet = map pct_unable_to_afford_diet view
      in case polyfit1 nan_outcome co2 diet of
           Inl e \<Rightarrow> Inl e
         | Inr z \<Rightarrow>
             Inr \<lparr>mean_co2 = series_mean (map Finite co2),
                  co2_pct_change_mean = series_mean (pct_change co2),
                  mean_diet = series_mean (map Finite diet),
                  diet_pct_change_mean = series_mean (pct_change diet),
                  correlation = corr co2 diet,
                  data_points = length view,
                  trend_line = z\<rparr>)"

section \<open>Loading: what is returned and when it fails\<close>

lemma same_name_refl: "same_name a a"
  by (simp add: same_name_def)




lemma insort_key_row_of:
  "insort_key (\<lambda>r. r ''year'') (row_of x) (map row_of xs) = map row_of (insort_key year x xs)"
  by (induction xs) (simp_all add: row_of_def)

lemma sort_key_row_of:
  "sort_key (\<lambda>r. r ''year'') (map row_of df) = map row_of (sort_key year df)"
  by (induction df) (simp_all add: insort_key_row_of)

lemma load_data_table_of:
  "load_data (Some (Database [(''environmental_social_data'', table_of df)]))
     = Inr (table_of (sort_key year df))"
  by (simp add: load_data_def sqlite3_connect_def read_sql_query_def table_of_def
      sort_key_row_of same_name_refl)

lemma loaded_frame_sorted: "sorted (map year (sort_key year df))"
  by simp




section \<open>Filtering\<close>

lemma filtered_df_filter:
  "filtered_df df (lo, hi) = filter (\<lambda>r. lo \<le> year r \<and> year r \<le> hi) df"
  by (induction df)
     (simp_all add: filtered_df_def getitem_mask_def series_and_def series_ge_def series_le_def)

lemma fold_min_le: "fold min ys (y::int) \<le> y"
proof (induction ys arbitrary: y)
  case Nil
  show ?case by simp
next
  case (Cons a ys)
  have "fold min ys (min a y) \<le> min a y" by (rule Cons.IH)
  then show ?case by simp
qed

lemma fold_min_lower: "z \<in> set ys \<Longrightarrow> fold min ys (y::int) \<le> z"
proof (induction ys arbitrary: y)
  case Nil
  then show ?case by simp
next
  case (Cons a ys)
  show ?case
  proof (cases "z = a")
    case True
    have "fold min ys (min a y) \<le> min a y" by (rule fold_min_le)
    then show ?thesis using True by simp
  next
    case False
    then have "z \<in> set ys" using Cons.prems by simp
    then show ?thesis using Cons.IH by simp
  qed
qed

lemma fold_max_ge: "y \<le> fold max ys (y::int)"
proof (induction ys arbitrary: y)
  case Nil
  show ?case by simp
next
  case (Cons a ys)
  have "max a y \<le> fold max ys (max a y)" by (rule Cons.IH)
  then show ?case by simp
qed

lemma fold_max_upper: "z \<in> set ys \<Longrightarrow> z \<le> fold max ys (y::int)"
proof (induction ys arbitrary: y)
  case Nil
  then show ?case by simp
next
  case (Cons a ys)
  show ?case
  proof (cases "z = a")
    case True
    have "max a y \<le> fold max ys (max a y)" by (rule fold_max_ge)
    then show ?thesis using True by simp
  next
    case False
    then have "z \<in> set ys" using Cons.prems by simp
    then show ?thesis using Cons.IH by simp
  qed
qed

lemma series_min_lower: "series_min ys = Some m \<Longrightarrow> z \<in> set ys \<Longrightarrow> m \<le> z"
  by (cases ys) (auto simp: fold_min_le fold_min_lower)

lemma series_max_upper: "series_max ys = Some m \<Longrightarrow> z \<in> set ys \<Longrightarrow> z \<le> m"
  by (cases ys) (auto simp: fold_max_ge fold_max_upper)

text \<open>
  C1. On a data frame in ascending year order (the order in which it is loaded), the
  filter with a range \<open>(lo, hi)\<close> returns exactly the rows whose year lies in
  \<open>[lo, hi]\<close>, in ascending year order, and the result is a subsequence of the frame:
  the order is kept and no row is inserted.
\<close>

theorem filtered_df_exact_sorted_subseq:
  assumes "sorted (map year df)"
  shows "filtered_df df (lo, hi) = filter (\<lambda>r. lo \<le> year r \<and> year r \<le> hi) df
       \<and> set (filtered_df df (lo, hi)) = {r \<in> set df. lo \<le> year r \<and> year r \<le> hi}
       \<and> sorted (map year (filtered_df df (lo, hi)))
       \<and> subseq (filtered_df df (lo, hi)) df"
proof -
  let ?P = "\<lambda>r. lo \<le> year r \<and> year r \<le> hi"
  have eq: "filtered_df df (lo, hi) = filter ?P df" by (rule filtered_df_filter)
  have "sorted (map year (filter ?P df))"
    using assms by (induction df) auto
  then show ?thesis using eq by simp
qed

theorem filtered_df_exact_sorted_subseq_witness:
  "sorted (map year example_dataset)
   \<and> filtered_df example_dataset (2019, 2021) =
       [\<lparr>year = 2019, total_co2_emissions = 464.1, pct_unable_to_afford_diet = 60.2\<rparr>,
        \<lparr>year = 2020, total_co2_emissions = 434.1, pct_unable_to_afford_diet = 61.8\<rparr>,
        \<lparr>year = 2021, total_co2_emissions = 425.9, pct_unable_to_afford_diet = 61.1\<rparr>]
   \<and> sorted (map year (filtered_df example_dataset (2019, 2021)))
   \<and> subseq (filtered_df example_dataset (2019, 2021)) example_dataset"
proof -
  have h: "sorted (map year example_dataset)" by (simp add: example_dataset_def)
  note t = filtered_df_exact_sorted_subseq [OF h, of 2019 2021]
  have "filter (\<lambda>r. 2019 \<le> year r \<and> year r \<le> 2021) example_dataset =
       [\<lparr>year = 2019, total_co2_emissions = 464.1, pct_unable_to_afford_diet = 60.2\<rparr>,
        \<lparr>year = 2020, total_co2_emissions = 434.1, pct_unable_to_afford_diet = 61.8\<rparr>,
        \<lparr>year = 2021, total_co2_emissions = 425.9, pct_unable_to_afford_diet = 61.1\<rparr>]"
    by (simp add: example_dataset_def)
  with t have f: "filtered_df example_dataset (2019, 2021) =
       [\<lparr>year = 2019, total_co2_emissions = 464.1, pct_unable_to_afford_diet = 60.2\<rparr>,
        \<lparr>year = 2020, total_co2_emissions = 434.1, pct_unable_to_afford_diet = 61.8\<rparr>,
        \<lparr>year = 2021, total_co2_emissions = 425.9, pct_unable_to_afford_diet = 61.1\<rparr>]"
    by (elim conjE) (rule trans)
  from t have s: "sorted (map year (filtered_df example_dataset (2019, 2021)))" by blast
  from t have q: "subseq (filtered_df example_dataset (2019, 2021)) example_dataset" by blast
  from h f s q show ?thesis by blast
qed

lemma series_min_max_bounds:
  assumes "df \<noteq> []"
  shows "\<exists>lo hi. series_min (map year df) = Some lo \<and> series_max (map year df) = Some hi
            \<and> (\<forall>r \<in> set df. lo \<le> year r \<and> year r \<le> hi)"
proof -
  obtain r rs where df: "df = r # rs" using assms by (cases df) auto
  let ?lo = "fold min (map year rs) (year r)"
  let ?hi = "fold max (map year rs) (year r)"
  have mn: "series_min (map year df) = Some ?lo" and mx: "series_max (map year df) = Some ?hi"
    by (simp_all add: df)
  have "\<forall>q \<in> set df. ?lo \<le> year q \<and> year q \<le> ?hi"
    using series_min_lower [OF mn] series_max_upper [OF mx] by simp
  with mn mx show ?thesis by blast
qed

lemma filtered_df_full_range:
  assumes "series_min (map year df) = Some lo" and "series_max (map year df) = Some hi"
  shows "filtered_df df (lo, hi) = df"
proof -
  have "\<forall>r \<in> set df. lo \<le> year r \<and> year r \<le> hi"
    using series_min_lower [OF assms(1)] series_max_upper [OF assms(2)] by simp
  then have "filter (\<lambda>r. lo \<le> year r \<and> year r \<le> hi) df = df"
    by (simp add: filter_id_conv)
  then show ?thesis by (simp add: filtered_df_filter)
qed

lemma year_range_default_Inr:
  assumes "year_range_default df = Inr (lo, hi)"
  shows "series_min (map year df) = Some lo \<and> series_max (map year df) = Some hi"
  using assms
  by (auto simp: year_range_default_def slider_def split: option.splits if_splits)

text \<open>
  C7. On a data frame with at least one row the least and the greatest year exist, and
  the filter with that full range returns the whole frame unchanged. Whenever the
  slider call of the script returns its initial value, that value is this full range,
  so the first view of the script is the whole frame.
\<close>

theorem full_range_returns_dataset:
  "(df \<noteq> [] \<longrightarrow>
      (\<exists>lo hi. series_min (map year df) = Some lo \<and> series_max (map year df) = Some hi
          \<and> filtered_df df (lo, hi) = df))
   \<and> (year_range_default df = Inr (lo', hi') \<longrightarrow>
        series_min (map year df) = Some lo' \<and> series_max (map year df) = Some hi'
        \<and> filtered_df df (lo', hi') = df)"
proof (intro conjI impI)
  assume "df \<noteq> []"
  then obtain lo hi where m: "series_min (map year df) = Some lo"
    "series_max (map year df) = Some hi"
    using series_min_max_bounds by blast
  then have "filtered_df df (lo, hi) = df" by (rule filtered_df_full_range)
  with m show "\<exists>lo hi. series_min (map year df) = Some lo \<and> series_max (map year df) = Some hi
          \<and> filtered_df df (lo, hi) = df"
    by blast
next
  assume a: "year_range_default df = Inr (lo', hi')"
  then show "series_min (map year df) = Some lo'" and "series_max (map year df) = Some hi'"
    using year_range_default_Inr by blast+
  then show "filtered_df df (lo', hi') = df" by (rule filtered_df_full_range)
qed

theorem full_range_returns_dataset_witness:
  "example_dataset \<noteq> []
   \<and> series_min (map year example_dataset) = Some 2017
   \<and> series_max (map year example_dataset) = Some 2023
   \<and> year_range_default example_dataset = Inr (2017, 2023)
   \<and> filtered_df example_dataset (2017, 2023) = example_dataset"
proof -
  have h: "example_dataset \<noteq> []" by (simp add: example_dataset_def)
  have mn: "series_min (map year example_dataset) = Some 2017"
    and mx: "series_max (map year example_dataset) = Some 2023"
    by (simp_all add: example_dataset_def)
  have d: "year_range_default example_dataset = Inr (2017, 2023)"
    by (simp add: year_range_default_def mn mx slider_def js_safe_integer_def)
  from full_range_returns_dataset [of example_dataset 2017 2023] d
  have f: "filtered_df example_dataset (2017, 2023) = example_dataset" by blast
  from h mn mx d f show ?thesis by (intro conjI)
qed

lemma year_range_default_single_year:
  "year_range_default [r] = Inl StreamlitAPIException"
  by (simp add: year_range_default_def slider_def)

text \<open>
  C9. The filter expression has no raising operation: for every pair of integers
  \<open>(lo, hi)\<close>, inside or outside the years of the frame, inverted or not, it returns
  the subsequence of the rows whose year lies in \<open>[lo, hi]\<close>; an inverted pair gives
  the empty view.
\<close>

theorem filtered_df_any_range:
  "filtered_df df (lo, hi) = filter (\<lambda>r. lo \<le> year r \<and> year r \<le> hi) df
   \<and> subseq (filtered_df df (lo, hi)) df
   \<and> (hi < lo \<longrightarrow> filtered_df df (lo, hi) = [])"
proof -
  have "hi < lo \<Longrightarrow> filter (\<lambda>r. lo \<le> year r \<and> year r \<le> hi) df = []"
    by (induction df) auto
  then show ?thesis by (simp add: filtered_df_filter)
qed

theorem filtered_df_any_range_witness:
  "(2019::int) < 2021
   \<and> filtered_df example_dataset (2021, 2019) = []
   \<and> filtered_df example_dataset (1900, 1950) = []
   \<and> filtered_df example_dataset (2022, 2100) =
          [\<lparr>year = 2022, total_co2_emissions = 405.3, pct_unable_to_afford_diet = 61.0\<rparr>,
           \<lparr>year = 2023, total_co2_emissions = 401.9, pct_unable_to_afford_diet = 61.7\<rparr>]"
  using filtered_df_any_range [of example_dataset 2021 2019]
    filtered_df_any_range [of example_dataset 1900 1950]
    filtered_df_any_range [of example_dataset 2022 2100]
  by (simp add: example_dataset_def)

section \<open>Means and percentage changes\<close>

lemma foldl_float_add_Finite:
  "foldl float_add (Finite a) (map Finite xs) = Finite (a + sum_list xs)"
  by (induction xs arbitrary: a) (simp_all add: algebra_simps)

lemma filter_not_NaN_Finite: "filter (\<lambda>v. v \<noteq> NaN) (map Finite xs) = map Finite xs"
  by (induction xs) simp_all

lemma series_mean_Finite:
  "xs \<noteq> [] \<Longrightarrow> series_mean (map Finite xs) = Finite (sum_list xs / real (length xs))"
  by (simp add: series_mean_def Let_def filter_not_NaN_Finite foldl_float_add_Finite)

lemma series_mean_NaN_Cons:
  "series_mean (NaN # s) = series_mean s"
  by (simp add: series_mean_def)

lemma series_mean_Nil: "series_mean [] = NaN"
  by (simp add: series_mean_def)

lemma pct_change_nonzero:
  assumes "\<forall>i < length xs. (x # xs) ! i \<noteq> 0"
  shows "pct_change (x # xs) = NaN # map Finite (map (\<lambda>(prev, cur). cur / prev - 1) (zip (x # xs) xs))"
proof -
  have "\<forall>pc \<in> set (zip (x # xs) xs). fst pc \<noteq> 0"
  proof
    fix pc assume a: "pc \<in> set (zip (x # xs) xs)"
    then obtain i where i: "i < length xs" and pc: "pc = ((x # xs) ! i, xs ! i)"
      by (auto simp: set_zip)
    then show "fst pc \<noteq> 0" using assms by simp
  qed
  then have "map (\<lambda>(prev, cur). float_sub1 (float_div cur prev)) (zip (x # xs) xs)
      = map Finite (map (\<lambda>(prev, cur). cur / prev - 1) (zip (x # xs) xs))"
    by (auto simp: float_sub1_def float_div_def)
  then show ?thesis by simp
qed

lemma sum_list_zip_shift:
  "sum_list (map (\<lambda>(prev, cur). f prev cur) (zip (x # xs) xs))
     = (\<Sum>i = 1..<length (x # xs). f ((x # xs) ! (i - 1)) ((x # xs) ! i))"
proof -
  let ?ys = "x # xs"
  have "sum_list (map (\<lambda>(prev, cur). f prev cur) (zip ?ys xs))
      = (\<Sum>i = 0..<length xs. f (?ys ! i) (xs ! i))"
    by (simp add: sum_list_sum_nth)
  also have "\<dots> = (\<Sum>i = 0..<length xs. f (?ys ! (Suc i - 1)) (?ys ! Suc i))"
    by simp
  also have "\<dots> = (\<Sum>i = Suc 0..<Suc (length xs). f (?ys ! (i - 1)) (?ys ! i))"
    by (rule sum.shift_bounds_Suc_ivl [symmetric])
  finally show ?thesis by simp
qed

text \<open>
  C5 (counterexample). On the column \<open>1, 0, 0\<close> the second quotient is \<open>0 / 0\<close>. The
  script's mean skips that NaN entry and is \<open>-1\<close>, the mean of the one remaining
  quotient; the arithmetic mean of the two quotients for \<open>i = 1, 2\<close> is NaN.
\<close>

theorem pct_change_mean_counterexample:
  "series_mean (pct_change [1, 0, 0]) = Finite (- 1)
   \<and> spec_pct_change_mean [1, 0, 0] = NaN"
proof -
  have u: "[1..<3] = [1, 2::nat]" by (simp add: upt_rec)
  have a: "series_mean (pct_change [1, 0, 0]) = Finite (- 1)"
    by (simp add: series_mean_def float_sub1_def float_div_def)
  have b: "spec_pct_change_mean [1, 0, 0] = NaN"
    by (simp add: spec_pct_change_mean_def u float_div_def)
  from a b show ?thesis by (rule conjI)
qed

lemma foldl_float_add_Finite':
  "foldl float_add (Finite a) (map (\<lambda>i. Finite (f i)) is) = Finite (a + sum_list (map f is))"
  by (induction "is" arbitrary: a) (simp_all add: algebra_simps)

lemma spec_pct_change_mean_nonzero:
  assumes "2 \<le> length x" and "\<forall>i < length x - 1. x ! i \<noteq> 0"
  shows "spec_pct_change_mean x =
     Finite ((\<Sum>i = 1..<length x. (x ! i - x ! (i - 1)) / x ! (i - 1)) / real (length x - 1))"
proof -
  let ?g = "\<lambda>i. (x ! i - x ! (i - 1)) / x ! (i - 1)"
  have m: "map (\<lambda>i. float_div (x ! i - x ! (i - 1)) (x ! (i - 1))) [1..<length x]
      = map (\<lambda>i. Finite (?g i)) [1..<length x]"
  proof (rule map_cong [OF refl])
    fix i assume "i \<in> set [1..<length x]"
    then have "i - 1 < length x - 1" by auto
    then have "x ! (i - 1) \<noteq> 0" using assms(2) by blast
    then show "float_div (x ! i - x ! (i - 1)) (x ! (i - 1)) = Finite (?g i)"
      by (simp add: float_div_def)
  qed
  have "spec_pct_change_mean x =
      float_div_count (foldl float_add (Finite 0) (map (\<lambda>i. Finite (?g i)) [1..<length x]))
        (length x - 1)"
    unfolding spec_pct_change_mean_def m using assms(1) by simp
  also have "\<dots> = Finite (sum_list (map ?g [1..<length x]) / real (length x - 1))"
    unfolding foldl_float_add_Finite' by simp
  also have "sum_list (map ?g [1..<length x]) = (\<Sum>i = 1..<length x. ?g i)"
    by (simp add: interv_sum_list_conv_sum_set_nat)
  finally show ?thesis .
qed

text \<open>
  C5 (as amended). For a column \<open>x\<close> of \<open>n \<ge> 2\<close> values in which every value that has
  a successor is non-zero, the mean percentage change is the arithmetic mean of
  \<open>(x[i] - x[i-1]) / x[i-1]\<close> over \<open>i = 1..n-1\<close>; for \<open>n < 2\<close> it is NaN.
\<close>

theorem pct_change_mean_formula:
  "(2 \<le> length x \<and> (\<forall>i < length x - 1. x ! i \<noteq> 0) \<longrightarrow>
      series_mean (pct_change x) =
        Finite ((\<Sum>i = 1..<length x. (x ! i - x ! (i - 1)) / x ! (i - 1)) / real (length x - 1)))
   \<and> (length x < 2 \<longrightarrow> series_mean (pct_change x) = NaN)"
proof (intro conjI impI)
  assume "length x < 2"
  then consider "x = []" | a where "x = [a]"
    by (cases x; cases "tl x") auto
  then show "series_mean (pct_change x) = NaN"
    by cases (simp_all add: series_mean_def)
next
  assume a: "2 \<le> length x \<and> (\<forall>i < length x - 1. x ! i \<noteq> 0)"
  then obtain y ys where x: "x = y # ys" and ys: "ys \<noteq> []"
    by (cases x; cases "tl x") auto
  have nz: "\<forall>i < length ys. (y # ys) ! i \<noteq> 0"
    using a x by simp
  let ?g = "\<lambda>(prev, cur). cur / prev - (1::real)"
  have nonempty: "map ?g (zip (y # ys) ys) \<noteq> []" using ys by (cases ys) auto
  have len: "length (map ?g (zip (y # ys) ys)) = length x - 1" using x by simp
  have "series_mean (pct_change x) = series_mean (map Finite (map ?g (zip (y # ys) ys)))"
    by (simp only: x pct_change_nonzero [OF nz] series_mean_NaN_Cons)
  also have "\<dots> = Finite (sum_list (map ?g (zip (y # ys) ys)) / real (length x - 1))"
    by (simp only: series_mean_Finite [OF nonempty] len)
  also have "sum_list (map ?g (zip (y # ys) ys))
      = (\<Sum>i = 1..<length x. x ! i / x ! (i - 1) - 1)"
    using sum_list_zip_shift [of "\<lambda>p c. c / p - 1" y ys] by (simp add: x)
  also have "\<dots> = (\<Sum>i = 1..<length x. (x ! i - x ! (i - 1)) / x ! (i - 1))"
  proof (rule sum.cong)
    fix i assume "i \<in> {1..<length x}"
    then have "i - 1 < length x - 1" by auto
    then have "x ! (i - 1) \<noteq> 0" using a by blast
    then show "x ! i / x ! (i - 1) - 1 = (x ! i - x ! (i - 1)) / x ! (i - 1)"
      by (simp add: diff_divide_distrib)
  qed simp
  finally show "series_mean (pct_change x) =
        Finite ((\<Sum>i = 1..<length x. (x ! i - x ! (i - 1)) / x ! (i - 1)) / real (length x - 1))" .
qed

theorem pct_change_mean_formula_witness:
  "2 \<le> length [100, 110, 99 :: real]
   \<and> series_mean (pct_change [100, 110, 99]) = Finite 0
   \<and> length [5 :: real] < 2 \<and> series_mean (pct_change [5]) = NaN"
proof -
  have s: "{1..<3::nat} = {1, 2}" by auto
  have "(\<Sum>i = 1..<3::nat. ([100, 110, 99 :: real] ! i - [100, 110, 99] ! (i - 1)) / [100, 110, 99] ! (i - 1)) = 0"
    unfolding s by (simp add: numeral_2_eq_2)
  moreover have "\<forall>i < 2. [100, 110, 99 :: real] ! i \<noteq> 0"
    by (simp add: less_Suc_eq numeral_2_eq_2)
  ultimately show ?thesis
    using pct_change_mean_formula [of "[100, 110, 99]"] pct_change_mean_formula [of "[5]"]
    by simp
qed

lemma polyfit1_returns:
  assumes "x \<noteq> []" and "length x = length y" and "dot x x \<noteq> 0" and "rcond x < 1"
  shows "\<exists>z. polyfit1 nan_outcome x y = Inr z"
  using assms by (simp add: polyfit1_def Let_def)

text \<open>
  C4. On the seven-row example, the range (2019, 2021) selects exactly the rows of
  2019, 2020 and 2021; the analysis of that view has 3 data points, mean CO2
  \<open>13241/30\<close>, within 0.005 of 441.37, and mean diet unaffordability \<open>1831/30\<close>, within
  0.005 of 61.03.
\<close>

theorem example_scenario:
  "filtered_df example_dataset (2019, 2021) =
       [\<lparr>year = 2019, total_co2_emissions = 464.1, pct_unable_to_afford_diet = 60.2\<rparr>,
        \<lparr>year = 2020, total_co2_emissions = 434.1, pct_unable_to_afford_diet = 61.8\<rparr>,
        \<lparr>year = 2021, total_co2_emissions = 425.9, pct_unable_to_afford_diet = 61.1\<rparr>]
   \<and> (\<exists>a. analyze nan_outcome (filtered_df example_dataset (2019, 2021)) = Inr a
          \<and> data_points a = 3
          \<and> mean_co2 a = Finite (13241 / 30) \<and> \<bar>13241 / 30 - 441.37\<bar> < (0.005 :: real)
          \<and> mean_diet a = Finite (1831 / 30) \<and> \<bar>1831 / 30 - 61.03\<bar> < (0.005 :: real))"
proof -
  let ?v = "[\<lparr>year = 2019, total_co2_emissions = 464.1, pct_unable_to_afford_diet = 60.2\<rparr>,
        \<lparr>year = 2020, total_co2_emissions = 434.1, pct_unable_to_afford_diet = 61.8\<rparr>,
        \<lparr>year = 2021, total_co2_emissions = 425.9, pct_unable_to_afford_diet = 61.1\<rparr>]"
  have f: "filtered_df example_dataset (2019, 2021) = ?v"
    by (simp add: filtered_df_filter example_dataset_def)
  have m1: "series_mean (map Finite (map total_co2_emissions ?v)) = Finite (13241 / 30)"
    by (simp add: series_mean_def)
  have m2: "series_mean (map Finite (map pct_unable_to_afford_diet ?v)) = Finite (1831 / 30)"
    by (simp add: series_mean_def)
  have "\<exists>z. polyfit1 nan_outcome (map total_co2_emissions ?v)
      (map pct_unable_to_afford_diet ?v) = Inr z"
    by (rule polyfit1_returns) (simp_all add: dot_def rcond_def)
  then obtain z where z: "polyfit1 nan_outcome (map total_co2_emissions ?v)
      (map pct_unable_to_afford_diet ?v) = Inr z"
    by blast
  have "\<exists>a. analyze nan_outcome ?v = Inr a
          \<and> data_points a = 3
          \<and> mean_co2 a = Finite (13241 / 30) \<and> \<bar>13241 / 30 - 441.37\<bar> < (0.005 :: real)
          \<and> mean_diet a = Finite (1831 / 30) \<and> \<bar>1831 / 30 - 61.03\<bar> < (0.005 :: real)"
    unfolding analyze_def Let_def z m1 m2 by simp
  then show ?thesis unfolding f by simp
qed

section \<open>Correlation\<close>

lemma length_deviations: "length (deviations xs) = length xs"
  by (simp add: deviations_def)

lemma dot_commute: "dot a b = dot b a"
proof -
  have "map (\<lambda>(u, v). u * v) (zip a b) = map (\<lambda>(u, v). u * v) (zip b a)"
    by (induction a arbitrary: b) (case_tac b; simp)+
  then show ?thesis by (simp add: dot_def)
qed

lemma cov_commute: "length a = length b \<Longrightarrow> cov a b = cov b a"
  by (simp add: cov_def dot_commute [of "deviations a"])

text \<open>
  In exact arithmetic the Pearson quotient of a view does not depend on which of the two
  columns is the receiver and which the argument. The two calls of the script divide
  by the two standard deviations in different orders, and their doubles can differ in
  the last bit; that difference is rounding and is not represented here.
\<close>

lemma corr_exact_symmetric:
  "corr (map total_co2_emissions view) (map pct_unable_to_afford_diet view)
     = corr (map pct_unable_to_afford_diet view) (map total_co2_emissions view)"
proof -
  let ?a = "map total_co2_emissions view" and ?b = "map pct_unable_to_afford_diet view"
  have l: "length ?a = length ?b" by simp
  have c: "cov ?a ?b = cov ?b ?a" by (rule cov_commute [OF l])
  have "cov ?a ?b / sqrt (cov ?a ?a) / sqrt (cov ?b ?b)
      = cov ?b ?a / sqrt (cov ?b ?b) / sqrt (cov ?a ?a)"
    by (simp add: c mult.commute)
  then have q: "clip (- 1) 1 (cov ?a ?b / sqrt (cov ?a ?a) / sqrt (cov ?b ?b))
      = clip (- 1) 1 (cov ?b ?a / sqrt (cov ?b ?b) / sqrt (cov ?a ?a))"
    by (rule arg_cong)
  show ?thesis
  proof (cases "length view = 0 \<or> length view = 1 \<or> cov ?a ?a = 0 \<or> cov ?b ?b = 0")
    case True
    then show ?thesis by (auto simp: corr_def)
  next
    case False
    then show ?thesis using q by (simp add: corr_def)
  qed
qed

lemma dot_shift:
  "length a = length b \<Longrightarrow>
   dot (map (\<lambda>x. x - c) a) (map (\<lambda>x. x - d) b)
     = dot a b - c * sum_list b - d * sum_list a + real (length a) * c * d"
  by (induction a b rule: list_induct2) (simp_all add: dot_def algebra_simps)

lemma dot_deviations:
  assumes "length a = length b" and "a \<noteq> []"
  shows "dot (deviations a) (deviations b)
     = dot a b - sum_list a * sum_list b / real (length a)"
proof -
  have n: "real (length a) \<noteq> 0" using assms(2) by simp
  have "dot (deviations a) (deviations b)
     = dot a b - mean_of a * sum_list b - mean_of b * sum_list a
       + real (length a) * mean_of a * mean_of b"
    unfolding deviations_def by (rule dot_shift [OF assms(1)])
  also have "\<dots> = dot a b - sum_list a * sum_list b / real (length a)"
    using n by (simp add: mean_of_def assms(1) [symmetric] field_simps)
  finally show ?thesis .
qed

lemma dot_self: "dot a a = sum_list (map (\<lambda>x. x * x) a)"
  by (induction a) (simp_all add: dot_def)

lemma dot_self_nonneg: "0 \<le> dot a a"
  unfolding dot_self by (rule sum_list_nonneg) auto

lemma dot_self_zero: "dot a a = 0 \<Longrightarrow> v \<in> set a \<Longrightarrow> v = 0"
proof (induction a)
  case Nil
  then show ?case by simp
next
  case (Cons x xs)
  have s: "x * x + dot xs xs = 0" using Cons.prems(1) by (simp add: dot_self)
  have "0 \<le> x * x" by simp
  moreover have "0 \<le> dot xs xs" by (rule dot_self_nonneg)
  ultimately have "x * x = 0" and "dot xs xs = 0" using s by linarith+
  then show ?case using Cons.IH Cons.prems(2) by auto
qed

lemma constant_if_no_deviation:
  assumes "dot (deviations x) (deviations x) = 0"
  shows "is_constant x"
proof -
  have "\<forall>v \<in> set x. v = mean_of x"
  proof
    fix v assume "v \<in> set x"
    then have "v - mean_of x \<in> set (deviations x)" by (simp add: deviations_def)
    then have "v - mean_of x = 0" using dot_self_zero [OF assms] by blast
    then show "v = mean_of x" by simp
  qed
  then have "\<forall>v \<in> set x. v = hd x" by (cases x) auto
  then show ?thesis by (simp add: is_constant_def list_all_iff)
qed

lemma not_constant_length: "\<not> is_constant x \<Longrightarrow> 2 \<le> length x"
  by (cases x; cases "tl x") (auto simp: is_constant_def)

lemma not_constant_spread: "\<not> is_constant x \<Longrightarrow> 0 < dot (deviations x) (deviations x)"
  using constant_if_no_deviation [of x] dot_self_nonneg [of "deviations x"] by fastforce

lemma not_constant_det:
  assumes "\<not> is_constant x"
  shows "real (length x) * dot x x - sum_list x * sum_list x
           = real (length x) * dot (deviations x) (deviations x)"
    and "0 < real (length x) * dot x x - sum_list x * sum_list x"
proof -
  have ne: "x \<noteq> []" using not_constant_length [OF assms] by auto
  then have n: "0 < real (length x)" by simp
  show e: "real (length x) * dot x x - sum_list x * sum_list x
           = real (length x) * dot (deviations x) (deviations x)"
    using n by (simp add: dot_deviations [OF refl ne] field_simps)
  show "0 < real (length x) * dot x x - sum_list x * sum_list x"
    unfolding e using n not_constant_spread [OF assms] by simp
qed

lemma not_constant_cov: "\<not> is_constant x \<Longrightarrow> 0 < cov x x"
  using not_constant_spread [of x] not_constant_length [of x] by (simp add: cov_def)

lemma sum_list_all_zero:
  "(\<And>p. p \<in> set ps \<Longrightarrow> f p = (0::real)) \<Longrightarrow> sum_list (map f ps) = 0"
  by (induction ps) simp_all

lemma cauchy_schwarz_dot:
  assumes "length u = length v"
  shows "dot u v * dot u v \<le> dot u u * dot v v"
proof (cases "dot u u = 0")
  case True
  have "sum_list (map (\<lambda>(a, b). a * b) (zip u v)) = 0"
  proof (rule sum_list_all_zero)
    fix p assume "p \<in> set (zip u v)"
    then have "(fst p, snd p) \<in> set (zip u v)" by simp
    then have "fst p \<in> set u" by (rule set_zip_leftD)
    then have "fst p = 0" using dot_self_zero [OF True] by blast
    then show "(case p of (a, b) \<Rightarrow> a * b) = 0"
      by (simp add: case_prod_unfold)
  qed
  then have "dot u v = 0" by (simp add: dot_def)
  then show ?thesis using True by simp
next
  case False
  then have A: "0 < dot u u" using dot_self_nonneg [of u] by simp
  define t where "t = dot u v / dot u u"
  have q: "dot (map (\<lambda>(a, b). b - t * a) (zip u v)) (map (\<lambda>(a, b). b - t * a) (zip u v))
      = dot v v - 2 * t * dot u v + t * t * dot u u"
    using assms by (induction u v rule: list_induct2) (simp_all add: dot_def algebra_simps)
  have "0 \<le> dot v v - 2 * t * dot u v + t * t * dot u u"
    unfolding q [symmetric] by (rule dot_self_nonneg)
  also have "\<dots> = dot v v - dot u v * dot u v / dot u u"
    using A by (simp add: t_def field_simps)
  finally have "dot u v * dot u v / dot u u \<le> dot v v" by simp
  then show ?thesis using A by (simp add: field_simps)
qed

lemma clip_id: "lo \<le> v \<Longrightarrow> v \<le> hi \<Longrightarrow> clip lo hi v = v"
  by (simp add: clip_def)

lemma pearson_bounds:
  assumes l: "length a = length b" and na: "\<not> is_constant a" and nb: "\<not> is_constant b"
  shows "\<bar>cov a b / sqrt (cov a a) / sqrt (cov b b)\<bar> \<le> 1"
proof -
  have va: "0 < cov a a" by (rule not_constant_cov [OF na])
  have vb: "0 < cov b b" by (rule not_constant_cov [OF nb])
  have n: "0 < real (length a) - 1" using not_constant_length [OF na] by simp
  have "dot (deviations a) (deviations b) * dot (deviations a) (deviations b)
      \<le> dot (deviations a) (deviations a) * dot (deviations b) (deviations b)"
    by (rule cauchy_schwarz_dot) (simp add: length_deviations l)
  then have "cov a b * cov a b \<le> cov a a * cov b b"
    using n by (simp add: cov_def l [symmetric] divide_right_mono mult_nonneg_nonneg)
  then have "\<bar>cov a b\<bar>\<^sup>2 \<le> cov a a * cov b b" by (simp add: power2_eq_square)
  then have "\<bar>cov a b\<bar> \<le> sqrt (cov a a * cov b b)" by (rule real_le_rsqrt)
  then have le: "\<bar>cov a b\<bar> \<le> sqrt (cov a a) * sqrt (cov b b)" by (simp add: real_sqrt_mult)
  have pos: "0 < sqrt (cov a a) * sqrt (cov b b)" using va vb by simp
  have "\<bar>cov a b / sqrt (cov a a) / sqrt (cov b b)\<bar> = \<bar>cov a b\<bar> / (sqrt (cov a a) * sqrt (cov b b))"
    using va vb by (simp add: abs_mult)
  also have "\<dots> \<le> 1" using le pos by simp
  finally show ?thesis .
qed

text \<open>
  C10. On a view with at least 2 rows in which neither column is constant, the
  correlation is a finite number in \<open>[-1, 1]\<close> (the clipping does not change the
  Pearson quotient), and its label is "Negative" when it is below 0 and "Positive"
  otherwise.
\<close>

theorem correlation_in_unit_interval:
  assumes "2 \<le> length view"
    and "\<not> is_constant (map total_co2_emissions view)"
    and "\<not> is_constant (map pct_unable_to_afford_diet view)"
  shows "\<exists>r. corr (map total_co2_emissions view) (map pct_unable_to_afford_diet view) = Finite r
           \<and> - 1 \<le> r \<and> r \<le> 1
           \<and> r = cov (map total_co2_emissions view) (map pct_unable_to_afford_diet view)
                   / sqrt (cov (map total_co2_emissions view) (map total_co2_emissions view))
                   / sqrt (cov (map pct_unable_to_afford_diet view) (map pct_unable_to_afford_diet view))
           \<and> correlation_delta (Finite r) = (if r < 0 then ''Negative'' else ''Positive'')"
proof -
  let ?a = "map total_co2_emissions view" and ?b = "map pct_unable_to_afford_diet view"
  let ?r = "cov ?a ?b / sqrt (cov ?a ?a) / sqrt (cov ?b ?b)"
  have b: "\<bar>?r\<bar> \<le> 1" using assms(2,3) by (intro pearson_bounds) simp_all
  then have lo: "- 1 \<le> ?r" and hi: "?r \<le> 1" by (simp_all only: abs_le_iff) linarith
  have cl: "clip (- 1) 1 ?r = ?r" by (rule clip_id [OF lo hi])
  have va: "cov ?a ?a \<noteq> 0" and vb: "cov ?b ?b \<noteq> 0"
    using not_constant_cov [OF assms(2)] not_constant_cov [OF assms(3)] by simp_all
  have len: "length ?a \<noteq> 0" "length ?a \<noteq> 1" using assms(1) by auto
  have "corr ?a ?b = Finite ?r"
    unfolding corr_def using len va vb cl by simp
  moreover note lo hi
  moreover have "correlation_delta (Finite ?r) = (if ?r < 0 then ''Negative'' else ''Positive'')"
    by (simp add: correlation_delta_def float_less_zero_def)
  ultimately show ?thesis by blast
qed

theorem correlation_in_unit_interval_witness:
  "2 \<le> length (filtered_df example_dataset (2019, 2021))
   \<and> \<not> is_constant (map total_co2_emissions (filtered_df example_dataset (2019, 2021)))
   \<and> \<not> is_constant (map pct_unable_to_afford_diet (filtered_df example_dataset (2019, 2021)))
   \<and> (\<exists>r. corr (map total_co2_emissions (filtered_df example_dataset (2019, 2021)))
              (map pct_unable_to_afford_diet (filtered_df example_dataset (2019, 2021))) = Finite r
          \<and> - 1 \<le> r \<and> r \<le> 1)"
proof -
  let ?v = "filtered_df example_dataset (2019, 2021)"
  have h1: "2 \<le> length ?v" by (simp add: filtered_df_filter example_dataset_def)
  have h2: "\<not> is_constant (map total_co2_emissions ?v)"
    by (simp add: filtered_df_filter example_dataset_def is_constant_def)
  have h3: "\<not> is_constant (map pct_unable_to_afford_diet ?v)"
    by (simp add: filtered_df_filter example_dataset_def is_constant_def)
  from correlation_in_unit_interval [OF h1 h2 h3] h1 h2 h3 show ?thesis by blast
qed

section \<open>Trend line\<close>

lemma constant_det:
  assumes "is_constant x"
  shows "real (length x) * dot x x - sum_list x * sum_list x = 0"
proof -
  have "\<forall>v \<in> set x. v = hd x" using assms by (simp add: is_constant_def list_all_iff)
  then have r: "replicate (length x) (hd x) = x" by (rule replicate_length_same)
  have "sum_list (replicate (length x) (hd x)) = real (length x) * hd x"
    by (simp add: sum_list_replicate)
  then have s: "sum_list x = real (length x) * hd x" by (simp only: r)
  have "dot (replicate (length x) (hd x)) (replicate (length x) (hd x))
      = real (length x) * (hd x * hd x)"
    by (simp add: dot_self sum_list_replicate)
  then have d: "dot x x = real (length x) * (hd x * hd x)" by (simp only: r)
  show ?thesis by (simp add: s d algebra_simps)
qed

lemma full_rank_det:
  assumes "full_rank x"
  shows "0 < real (length x) * dot x x - sum_list x * sum_list x"
proof -
  define r where "r = rcond x"
  define A where "A = (1 + r * r) * (1 + r * r)"
  define B where "B = (1 - r * r) * (1 - r * r)"
  have r0: "0 \<le> r" by (simp add: r_def rcond_def)
  have r1: "r < 1" using assms by (simp add: full_rank_def r_def)
  have "r * r \<le> r * 1" using r0 r1 by (intro mult_left_mono) simp_all
  then have rr: "r * r < 1" using r1 by simp
  have lt: "sum_list x * sum_list x * A < real (length x) * dot x x * B"
    using assms by (simp add: full_rank_def r_def A_def B_def)
  have B0: "0 < B" using rr by (simp add: B_def)
  have "B \<le> A"
  proof -
    have "0 \<le> 1 - r * r" and "1 - r * r \<le> 1 + r * r" using rr r0 by simp_all
    then show ?thesis unfolding A_def B_def by (intro mult_mono) simp_all
  qed
  then have "sum_list x * sum_list x * B \<le> sum_list x * sum_list x * A"
    by (intro mult_left_mono) simp_all
  with lt have "sum_list x * sum_list x * B < real (length x) * dot x x * B" by linarith
  then have "sum_list x * sum_list x < real (length x) * dot x x"
    using B0 by simp
  then show ?thesis by simp
qed

lemma full_rank_not_constant: "full_rank x \<Longrightarrow> \<not> is_constant x"
  using full_rank_det [of x] constant_det [of x] by auto

lemma full_rank_fit:
  assumes "length x = length y" and "full_rank x"
  shows "polyfit1 nan_outcome x y =
           Inr (Finite ((real (length x) * dot x y - sum_list x * sum_list y)
                          / (real (length x) * dot x x - sum_list x * sum_list x)),
                Finite ((dot x x * sum_list y - sum_list x * dot x y)
                          / (real (length x) * dot x x - sum_list x * sum_list x)))"
proof -
  have ne: "x \<noteq> []" using not_constant_length [OF full_rank_not_constant [OF assms(2)]] by auto
  have r: "\<not> 1 \<le> rcond x" using assms(2) by (simp add: full_rank_def)
  have "dot x x \<noteq> 0"
  proof
    assume "dot x x = 0"
    then have "sum_list x * sum_list x < 0" using full_rank_det [OF assms(2)] by simp
    moreover have "0 \<le> sum_list x * sum_list x" by simp
    ultimately show False by linarith
  qed
  then show ?thesis using ne r assms by (simp add: polyfit1_def Let_def)
qed

lemma polyfit1_cov:
  assumes l: "length x = length y" and fr: "full_rank x"
  shows "polyfit1 nan_outcome x y =
           Inr (Finite (cov x y / cov x x),
                Finite (mean_of y - cov x y / cov x x * mean_of x))"
proof -
  define n where "n = real (length x)"
  define sx where "sx = sum_list x"
  define sy where "sy = sum_list y"
  define sxx where "sxx = dot x x"
  define sxy where "sxy = dot x y"
  define det where "det = n * sxx - sx * sx"
  note nc = full_rank_not_constant [OF fr]
  have ne: "x \<noteq> []" using not_constant_length [OF nc] by auto
  have n2: "2 \<le> n" using not_constant_length [OF nc] by (simp add: n_def)
  have det: "0 < det" using not_constant_det(2) [OF nc] by (simp add: det_def n_def sx_def sxx_def)
  have Sxy: "dot (deviations x) (deviations y) = sxy - sx * sy / n"
    by (simp add: dot_deviations [OF l ne] n_def sx_def sy_def sxy_def)
  have "dot (deviations x) (deviations x) = sxx - sx * sx / n"
    by (simp add: dot_deviations [OF refl ne] n_def sx_def sxx_def)
  also have "\<dots> = det / n"
    using n2 by (simp add: det_def field_simps)
  finally have Sxx: "dot (deviations x) (deviations x) = det / n" .
  have slope: "cov x y / cov x x = (n * sxy - sx * sy) / det"
    using n2 det by (simp add: cov_def Sxy Sxx n_def [symmetric] field_simps)
  have "mean_of y - (n * sxy - sx * sy) / det * mean_of x = (sxx * sy - sx * sxy) / det"
    using n2 det
    by (simp add: mean_of_def l [symmetric] n_def [symmetric] sx_def [symmetric]
        sy_def [symmetric] det_def field_simps)
  then have icpt: "mean_of y - cov x y / cov x x * mean_of x = (sxx * sy - sx * sxy) / det"
    by (simp only: slope)
  have "polyfit1 nan_outcome x y =
      Inr (Finite ((n * sxy - sx * sy) / det), Finite ((sxx * sy - sx * sxy) / det))"
    unfolding n_def sx_def sy_def sxx_def sxy_def det_def by (rule full_rank_fit [OF l fr])
  also have "(n * sxy - sx * sy) / det = cov x y / cov x x" by (rule slope [symmetric])
  also have "(sxx * sy - sx * sxy) / det = mean_of y - cov x y / cov x x * mean_of x"
    by (rule icpt [symmetric])
  finally show ?thesis .
qed

lemma polyfit1_single:
  assumes "c \<noteq> 0"
  shows "polyfit1 nan_outcome [c] [d] = Inr (Finite (d / (2 * c)), Finite (d / 2))"
proof -
  have r: "rcond [c] = 1 / 2 ^ 52" by (simp add: rcond_def)
  have r1: "\<not> 1 \<le> rcond [c]" unfolding r by simp
  have nf: "\<not> full_rank [c]"
    using full_rank_not_constant [of "[c]"] by (auto simp: is_constant_def)
  have dx: "dot [c] [c] = c * c" and dy: "dot [c] [d] = c * d" by (simp_all add: dot_def)
  have dz: "dot [c] [c] \<noteq> 0" using assms by (simp add: dx)
  have sq: "sqrt (c * c) = \<bar>c\<bar>" by (rule real_sqrt_abs2)
  have p: "polyfit1 nan_outcome [c] [d] =
      Inr (Finite ((c * d + sgn c * d * \<bar>c\<bar>) / (2 * (\<bar>c\<bar> + \<bar>c\<bar>)) / \<bar>c\<bar>),
           Finite (sgn c * ((c * d + sgn c * d * \<bar>c\<bar>) / (2 * (\<bar>c\<bar> + \<bar>c\<bar>)))))"
    using r1 nf dz by (simp add: polyfit1_def Let_def dx dy sq)
  show ?thesis
  proof (cases "0 < c")
    case True
    then have "sgn c = 1" and "\<bar>c\<bar> = c" by simp_all
    then show ?thesis unfolding p using True by (simp add: field_simps)
  next
    case False
    then have neg: "c < 0" using assms by simp
    then have "sgn c = - 1" and "\<bar>c\<bar> = - c" by simp_all
    then show ?thesis unfolding p using neg by (simp add: field_simps)
  qed
qed

text \<open>
  A column that is constant up to the cut-off: on \<open>x = 1, 1 + 2\<^sup>-\<^sup>5\<^sup>2\<close> and
  \<open>y = 0, 1\<close> the scaled matrix does not have full rank for \<^verbatim>\<open>lstsq\<close>, and the fit is the
  solution of least norm, slope and intercept both within \<open>2\<^sup>-\<^sup>5\<^sup>0\<close> of \<open>1/4\<close>, and
  not the solution \<open>(2\<^sup>5\<^sup>2, -2\<^sup>5\<^sup>2)\<close> of the normal equations.
\<close>

lemma nearly_constant_not_full_rank: "\<not> full_rank [1, 1 + 1 / 2 ^ 52]"
  by (simp add: full_rank_def rcond_def dot_def)

lemma cancel_common_factor:
  fixes R :: real
  assumes "0 < R"
  shows "(2 * a * R) / (2 * R * b) = a / b"
    and "(a * R) / (2 * R * b) = a / (2 * b)"
    and "(a * R) / (2 * (R * b) * c) = a / (2 * b * c)"
  using assms by simp_all

lemma nearly_constant_fit:
  assumes e: "0 < e" and nf: "\<not> full_rank [1, 1 + e]"
  shows "\<exists>m c. polyfit1 nan_outcome [1, 1 + e] [0, 1] = Inr (Finite m, Finite c)
           \<and> (2 + e) / (2 * (1 + e) * (4 + 3 * e)) \<le> m \<and> m \<le> (1 + e) / (4 + e)
           \<and> (2 + e) / (2 * (4 + 3 * e)) \<le> c \<and> c \<le> (1 + e) / (4 + e)"
proof -
  define N where "N = sqrt (1 + (1 + e) * (1 + e))"
  define R where "R = sqrt (2::real)"
  define g where "g = ((1 + e) * R + N) / (2 * (N * R + (2 + e)))"
  have R0: "0 < R" by (simp add: R_def)
  have RR: "R * R = 2" by (simp add: R_def)
  have "(2::real) \<le> 1 + (1 + e) * (1 + e)" using e by (simp add: algebra_simps)
  then have RN: "R \<le> N" unfolding R_def N_def by (rule real_sqrt_le_mono)
  have "1 + (1 + e) * (1 + e) \<le> 2 * ((1 + e) * (1 + e))"
  proof -
    have "1 \<le> (1 + e) * (1 + e)" using e by (simp add: algebra_simps)
    then show ?thesis by simp
  qed
  then have "N \<le> sqrt (2 * ((1 + e) * (1 + e)))" unfolding N_def by (rule real_sqrt_le_mono)
  also have "\<dots> = R * (1 + e)" using e by (simp add: R_def real_sqrt_mult)
  finally have NR: "N \<le> R * (1 + e)" .
  have N0: "0 < N" using R0 RN by linarith
  have rc: "rcond [1, 1 + e] < 1" by (simp add: rcond_def)
  have dt: "dot [1, 1 + e] [1, 1 + e] = 1 + (1 + e) * (1 + e)" by (simp add: dot_def)
  have dz: "dot [1, 1 + e] [1, 1 + e] \<noteq> 0"
  proof -
    have "0 < 1 + (1 + e) * (1 + e)" using e by (simp add: algebra_simps add_pos_nonneg)
    then show ?thesis by (simp add: dt)
  qed
  have p: "polyfit1 nan_outcome [1, 1 + e] [0, 1] = Inr (Finite (g / N), Finite (g / R))"
    using e nf rc dz
    by (simp add: polyfit1_def Let_def dt dot_def g_def N_def R_def algebra_simps)
  have num_lo: "(2 + e) * R \<le> (1 + e) * R + N" using RN by (simp add: algebra_simps)
  have num_hi: "(1 + e) * R + N \<le> 2 * (1 + e) * R" using NR by (simp add: algebra_simps)
  have NRlo: "2 \<le> N * R"
  proof -
    have "R * R \<le> N * R" using RN R0 by (intro mult_right_mono) simp_all
    then show ?thesis by (simp add: RR)
  qed
  have NRhi: "N * R \<le> 2 * (1 + e)"
  proof -
    have "N * R \<le> (R * (1 + e)) * R" using NR R0 by (intro mult_right_mono) simp_all
    also have "\<dots> = (R * R) * (1 + e)" by (simp add: algebra_simps)
    finally show ?thesis by (simp add: RR)
  qed
  have den_lo: "4 + e \<le> N * R + (2 + e)" using NRlo by simp
  have den_hi: "N * R + (2 + e) \<le> 4 + 3 * e" using NRhi by simp
  have den0: "0 < N * R + (2 + e)" using den_lo e by linarith
  have num0: "0 \<le> (1 + e) * R + N" using R0 N0 e by (intro add_nonneg_nonneg) simp_all
  have c_eq: "g / R = ((1 + e) * R + N) / (2 * R * (N * R + (2 + e)))"
    by (simp add: g_def)
  have c_hi: "g / R \<le> (1 + e) / (4 + e)"
  proof -
    have "((1 + e) * R + N) / (2 * R * (N * R + (2 + e)))
        \<le> (2 * (1 + e) * R) / (2 * R * (4 + e))"
      using num_hi den_lo R0 e den0
      by (intro frac_le mult_left_mono mult_pos_pos) simp_all
    also have "\<dots> = (1 + e) / (4 + e)" by (rule cancel_common_factor(1) [OF R0])
    finally show ?thesis by (simp only: c_eq)
  qed
  have c_lo: "(2 + e) / (2 * (4 + 3 * e)) \<le> g / R"
  proof -
    have "((2 + e) * R) / (2 * R * (4 + 3 * e))
        \<le> ((1 + e) * R + N) / (2 * R * (N * R + (2 + e)))"
      using num_lo den_hi R0 e den0 num0
      by (intro frac_le mult_left_mono mult_pos_pos mult_nonneg_nonneg) simp_all
    moreover have "((2 + e) * R) / (2 * R * (4 + 3 * e)) = (2 + e) / (2 * (4 + 3 * e))"
      by (rule cancel_common_factor(2) [OF R0])
    ultimately show ?thesis by (simp only: c_eq)
  qed
  have m_eq: "g / N = ((1 + e) * R + N) / (2 * N * (N * R + (2 + e)))"
    by (simp add: g_def)
  have m_hi: "g / N \<le> (1 + e) / (4 + e)"
  proof -
    have "2 * R * (4 + e) \<le> 2 * N * (N * R + (2 + e))"
      using RN den_lo R0 N0 e by (intro mult_mono) simp_all
    then have "((1 + e) * R + N) / (2 * N * (N * R + (2 + e)))
        \<le> (2 * (1 + e) * R) / (2 * R * (4 + e))"
      using num_hi R0 e
      by (intro frac_le mult_pos_pos mult_nonneg_nonneg) simp_all
    also have "\<dots> = (1 + e) / (4 + e)" by (rule cancel_common_factor(1) [OF R0])
    finally show ?thesis by (simp only: m_eq)
  qed
  have m_lo: "(2 + e) / (2 * (1 + e) * (4 + 3 * e)) \<le> g / N"
  proof -
    have "2 * N * (N * R + (2 + e)) \<le> 2 * (R * (1 + e)) * (4 + 3 * e)"
      using NR den_hi R0 N0 e den0 by (intro mult_mono) simp_all
    then have "((2 + e) * R) / (2 * (R * (1 + e)) * (4 + 3 * e))
        \<le> ((1 + e) * R + N) / (2 * N * (N * R + (2 + e)))"
      using num_lo R0 N0 e den0 num0
      by (intro frac_le mult_pos_pos mult_nonneg_nonneg) simp_all
    moreover have "((2 + e) * R) / (2 * (R * (1 + e)) * (4 + 3 * e))
        = (2 + e) / (2 * (1 + e) * (4 + 3 * e))"
      by (rule cancel_common_factor(3) [OF R0])
    ultimately show ?thesis by (simp only: m_eq)
  qed
  from p m_lo m_hi c_lo c_hi show ?thesis by blast
qed

lemma nearly_constant_example:
  "\<exists>m c. polyfit1 nan_outcome [1, 1 + 1 / 2 ^ 52] [0, 1] = Inr (Finite m, Finite c)
           \<and> \<bar>m - 1 / 4\<bar> < 1 / 2 ^ 50 \<and> \<bar>c - 1 / 4\<bar> < 1 / 2 ^ 50"
proof -
  define e :: real where "e = 1 / 2 ^ 52"
  have e0: "0 < e" by (simp add: e_def)
  have nf: "\<not> full_rank [1, 1 + e]" unfolding e_def by (rule nearly_constant_not_full_rank)
  obtain m c where p: "polyfit1 nan_outcome [1, 1 + e] [0, 1] = Inr (Finite m, Finite c)"
    and m: "(2 + e) / (2 * (1 + e) * (4 + 3 * e)) \<le> m" "m \<le> (1 + e) / (4 + e)"
    and c: "(2 + e) / (2 * (4 + 3 * e)) \<le> c" "c \<le> (1 + e) / (4 + e)"
    using nearly_constant_fit [OF e0 nf] by blast
  define d :: real where "d = 1 / 2 ^ 50"
  have hi: "(1 + e) / (4 + e) < 1 / 4 + d" by (simp add: e_def d_def)
  have lo1: "1 / 4 - d < (2 + e) / (2 * (1 + e) * (4 + 3 * e))" by (simp add: e_def d_def)
  have lo2: "1 / 4 - d < (2 + e) / (2 * (4 + 3 * e))" by (simp add: e_def d_def)
  have "1 / 4 - d < m" and "m < 1 / 4 + d" using m hi lo1 by linarith+
  then have bm: "\<bar>m - 1 / 4\<bar> < d" by (simp add: abs_less_iff)
  have "1 / 4 - d < c" and "c < 1 / 4 + d" using c hi lo2 by linarith+
  then have bc: "\<bar>c - 1 / 4\<bar> < d" by (simp add: abs_less_iff)
  from p bm bc show ?thesis unfolding e_def d_def by blast
qed

lemma sse_expand:
  "length x = length y \<Longrightarrow>
   sse x y m c = dot y y - 2 * m * dot x y - 2 * c * sum_list y
       + m * m * dot x x + 2 * m * c * sum_list x + real (length x) * c * c"
  by (induction x y rule: list_induct2) (simp_all add: sse_def dot_def algebra_simps)

lemma line_square_sum:
  "sum_list (map (\<lambda>u. (p * u + q) * (p * u + q)) x)
     = p * p * dot x x + 2 * p * q * sum_list x + real (length x) * q * q"
  by (induction x) (simp_all add: dot_def algebra_simps)

lemma polyfit1_least_squares:
  assumes l: "length x = length y" and fr: "full_rank x"
    and fit: "polyfit1 nan_outcome x y = Inr (Finite m, Finite c)"
  shows "sse x y m c \<le> sse x y m' c'"
proof -
  define n where "n = real (length x)"
  define sx where "sx = sum_list x"
  define sy where "sy = sum_list y"
  define sxx where "sxx = dot x x"
  define sxy where "sxy = dot x y"
  define det where "det = n * sxx - sx * sx"
  have det: "det \<noteq> 0" using full_rank_det [OF fr] by (simp add: det_def n_def sx_def sxx_def)
  have "polyfit1 nan_outcome x y =
      Inr (Finite ((n * sxy - sx * sy) / det), Finite ((sxx * sy - sx * sxy) / det))"
    unfolding n_def sx_def sy_def sxx_def sxy_def det_def by (rule full_rank_fit [OF l fr])
  then have m: "m = (n * sxy - sx * sy) / det" and c: "c = (sxx * sy - sx * sxy) / det"
    using fit by simp_all
  have md: "m * det = n * sxy - sx * sy" and cd: "c * det = sxx * sy - sx * sxy"
    using det by (simp_all add: m c)
  have "(m * sxx + c * sx) * det = sxx * (m * det) + sx * (c * det)"
    by (simp add: algebra_simps)
  also have "\<dots> = sxy * det"
    unfolding md cd by (simp add: det_def algebra_simps)
  finally have n1: "sxy = m * sxx + c * sx" using det by simp
  have "(m * sx + c * n) * det = sx * (m * det) + n * (c * det)"
    by (simp add: algebra_simps)
  also have "\<dots> = sy * det"
    unfolding md cd by (simp add: det_def algebra_simps)
  finally have n2: "sy = m * sx + c * n" using det by simp
  define p where "p = m' - m"
  define q where "q = c' - c"
  have "0 \<le> sum_list (map (\<lambda>u. (p * u + q) * (p * u + q)) x)"
    by (rule sum_list_nonneg) auto
  then have Q: "0 \<le> p * p * sxx + 2 * p * q * sx + n * q * q"
    by (simp add: line_square_sum sxx_def sx_def n_def)
  have "sse x y m' c' - sse x y m c = p * p * sxx + 2 * p * q * sx + n * q * q"
    unfolding sse_expand [OF l] n_def [symmetric] sx_def [symmetric] sy_def [symmetric]
      sxx_def [symmetric] sxy_def [symmetric] n1 n2 p_def q_def
    by (simp add: algebra_simps)
  then show ?thesis using Q by linarith
qed

lemma full_rank_example: "full_rank [1, 2, 3, 4, 5]"
  by (simp add: full_rank_def rcond_def dot_def)

text \<open>
  C3. On \<open>x = 1, ..., 5\<close> and \<open>y = 2 x + 3\<close> the fit of degree 1 has slope 2 and
  intercept 3, and the correlation of the two series is 1. On this input the slope is
  the covariance of \<open>x\<close> and \<open>y\<close> divided by the variance of \<open>x\<close>, and the intercept is
  the mean of \<open>y\<close> minus the slope times the mean of \<open>x\<close>.
\<close>

theorem trend_line_least_squares:
  "polyfit1 nan_outcome [1, 2, 3, 4, 5] [5, 7, 9, 11, 13] = Inr (Finite 2, Finite 3)
   \<and> corr [1, 2, 3, 4, 5] [5, 7, 9, 11, 13] = Finite 1
   \<and> cov [1, 2, 3, 4, 5] [5, 7, 9, 11, 13] / cov [1, 2, 3, 4, 5] [1, 2, 3, 4, 5] = 2
   \<and> mean_of [5, 7, 9, 11, 13] - 2 * mean_of [1, 2, 3, 4, 5] = 3"
proof (intro conjI)
  have "polyfit1 nan_outcome [1, 2, 3, 4, 5] [5, 7, 9, 11, 13] =
      Inr (Finite ((real (length [1, 2, 3, 4, 5 :: real]) * dot [1, 2, 3, 4, 5] [5, 7, 9, 11, 13]
                      - sum_list [1, 2, 3, 4, 5] * sum_list [5, 7, 9, 11, 13])
                   / (real (length [1, 2, 3, 4, 5 :: real]) * dot [1, 2, 3, 4, 5] [1, 2, 3, 4, 5]
                      - sum_list [1, 2, 3, 4, 5] * sum_list [1, 2, 3, 4, 5])),
           Finite ((dot [1, 2, 3, 4, 5] [1, 2, 3, 4, 5] * sum_list [5, 7, 9, 11, 13]
                      - sum_list [1, 2, 3, 4, 5] * dot [1, 2, 3, 4, 5] [5, 7, 9, 11, 13])
                   / (real (length [1, 2, 3, 4, 5 :: real]) * dot [1, 2, 3, 4, 5] [1, 2, 3, 4, 5]
                      - sum_list [1, 2, 3, 4, 5] * sum_list [1, 2, 3, 4, 5])))"
    by (rule full_rank_fit [OF _ full_rank_example]) simp
  then show "polyfit1 nan_outcome [1, 2, 3, 4, 5] [5, 7, 9, 11, 13] = Inr (Finite 2, Finite 3)"
    by (simp add: dot_def)
next
  have cxy: "cov [1, 2, 3, 4, 5] [5, 7, 9, 11, 13] = 5"
    by (simp add: cov_def dot_def deviations_def mean_of_def)
  have cxx: "cov [1, 2, 3, 4, 5] [1, 2, 3, 4, 5] = 5 / 2"
    by (simp add: cov_def dot_def deviations_def mean_of_def)
  have cyy: "cov [5, 7, 9, 11, 13] [5, 7, 9, 11, 13] = 10"
    by (simp add: cov_def dot_def deviations_def mean_of_def)
  have "sqrt (5 / 2) * sqrt 10 = sqrt ((5 / 2) * 10)" by (rule real_sqrt_mult [symmetric])
  also have "(5 / 2) * 10 = (5::real)\<^sup>2" by simp
  also have "sqrt ((5::real)\<^sup>2) = 5" by simp
  finally have s: "sqrt (5 / 2) * sqrt 10 = 5" .
  have "(5::real) / sqrt (5 / 2) / sqrt 10 = 5 / (sqrt (5 / 2) * sqrt 10)" by simp
  also have "\<dots> = 1" unfolding s by simp
  finally have r: "(5::real) / sqrt (5 / 2) / sqrt 10 = 1" .
  show "corr [1, 2, 3, 4, 5] [5, 7, 9, 11, 13] = Finite 1"
    unfolding corr_def cxy cxx cyy r by (simp add: clip_def)
next
  show "cov [1, 2, 3, 4, 5] [5, 7, 9, 11, 13] / cov [1, 2, 3, 4, 5] [1, 2, 3, 4, 5] = 2"
    by (simp add: cov_def dot_def deviations_def mean_of_def)
next
  show "mean_of [5, 7, 9, 11, 13] - 2 * mean_of [1, 2, 3, 4, 5] = 3"
    by (simp add: mean_of_def)
qed

section \<open>Views with fewer than two rows\<close>

text \<open>
  C2 (counterexample). On the empty view the analysis does not return: \<^verbatim>\<open>polyfit\<close>
  raises \<^verbatim>\<open>TypeError\<close>. On the single row of 2019 the trend line is a pair of
  numbers, not an undefined value.
\<close>

theorem degenerate_view_counterexample:
  "(\<forall>nan_outcome. analyze nan_outcome [] = Inl TypeError)
   \<and> (\<forall>nan_outcome. polyfit1 nan_outcome [464.1] [60.2] = Inr (Finite (301 / 4641), Finite 30.1))"
proof (intro conjI allI)
  fix nan_outcome
  show "analyze nan_outcome [] = Inl TypeError"
    by (simp add: analyze_def polyfit1_def)
  have "polyfit1 nan_outcome [464.1] [60.2] = Inr (Finite (60.2 / (2 * 464.1)), Finite (60.2 / 2))"
    by (rule polyfit1_single) simp
  then show "polyfit1 nan_outcome [464.1] [60.2] = Inr (Finite (301 / 4641), Finite 30.1)"
    by simp
qed

text \<open>
  C2 (as amended). On a view with fewer than 2 rows the two mean percentage changes
  and the correlation are NaN. The trend line is not an undefined value: on the empty
  view \<^verbatim>\<open>polyfit\<close> raises \<^verbatim>\<open>TypeError\<close>, and on a single row with a non-zero CO2 value
  it returns the slope \<open>diet / (2 co2)\<close> and the intercept \<open>diet / 2\<close>.
\<close>

theorem degenerate_view_statistics:
  assumes "length view < 2"
  shows "series_mean (pct_change (map total_co2_emissions view)) = NaN
       \<and> series_mean (pct_change (map pct_unable_to_afford_diet view)) = NaN
       \<and> corr (map total_co2_emissions view) (map pct_unable_to_afford_diet view) = NaN
       \<and> (view = [] \<longrightarrow> analyze nan_outcome view = Inl TypeError)
       \<and> (\<forall>r. view = [r] \<and> total_co2_emissions r \<noteq> 0 \<longrightarrow>
            polyfit1 nan_outcome (map total_co2_emissions view) (map pct_unable_to_afford_diet view)
              = Inr (Finite (pct_unable_to_afford_diet r / (2 * total_co2_emissions r)),
                     Finite (pct_unable_to_afford_diet r / 2)))"
proof -
  consider "view = []" | r where "view = [r]"
    using assms by (cases view; cases "tl view") auto
  then show ?thesis
  proof cases
    case 1
    then show ?thesis
      by (simp add: series_mean_def corr_def analyze_def polyfit1_def)
  next
    case 2
    then show ?thesis
      by (simp add: series_mean_def corr_def polyfit1_single)
  qed
qed

theorem degenerate_view_statistics_witness:
  "length [\<lparr>year = 2019, total_co2_emissions = 464.1, pct_unable_to_afford_diet = 60.2\<rparr>] < 2
   \<and> series_mean (pct_change [464.1]) = NaN
   \<and> series_mean (pct_change [60.2]) = NaN
   \<and> corr [464.1] [60.2] = NaN
   \<and> polyfit1 (Inl LinAlgError) [464.1] [60.2] = Inr (Finite (301 / 4641), Finite 30.1)
   \<and> analyze (Inl LinAlgError) [] = Inl TypeError"
  using degenerate_view_statistics
    [of "[\<lparr>year = 2019, total_co2_emissions = 464.1, pct_unable_to_afford_diet = 60.2\<rparr>]"
        "Inl LinAlgError"]
    degenerate_view_statistics [of "[]" "Inl LinAlgError"]
  by simp

end
